theory Spec2Isabelle
  imports Complex_Main "HOL-Library.AList"
begin

section \<open>The RPi.GPIO layer of ArmbianIO (python/RPi/GPIO.py)\<close>

text \<open>
  The module keeps four process-wide variables (\<^verbatim>\<open>_gpio_warnings\<close>, \<^verbatim>\<open>_mode\<close>,
  \<^verbatim>\<open>_exports\<close>, \<^verbatim>\<open>_events\<close>) and calls the native armbianio library for
  everything that touches a pin. The model passes the four variables and the state of the
  native library around explicitly. Every exception of the source is a value of type
  \<open>error\<close>; a function returns its outcome together with the state it leaves
  behind, because a Python exception does not undo the assignments made before it.
\<close>

subsection \<open>Constants of the module\<close>

definition OUT :: int where "OUT = 0"
definition IN :: int where "IN = 1"
definition HIGH :: bool where "HIGH = True"
definition LOW :: bool where "LOW = False"

text \<open>
  Modelled from the spec: the trigger constants \<^verbatim>\<open>EDGE_RISING\<close>,
  \<^verbatim>\<open>EDGE_FALLING\<close>, \<^verbatim>\<open>EDGE_BOTH\<close> and \<^verbatim>\<open>EDGE_NONE\<close> come from the
  armbianio binding, which is not among the sources. Section 4.3 of the spec fixes the level
  a trigger waits for: high for RISING, low for FALLING. The source compares the sampled
  level with the trigger by \<^verbatim>\<open>==\<close>, so RISING is the integer 1 and FALLING the
  integer 0; BOTH and NONE are two further, distinct codes.
\<close>

definition EDGE_FALLING :: int where "EDGE_FALLING = 0"
definition EDGE_RISING :: int where "EDGE_RISING = 1"
definition EDGE_BOTH :: int where "EDGE_BOTH = 2"
definition EDGE_NONE :: int where "EDGE_NONE = 3"

definition RISING :: int where "RISING = EDGE_RISING"
definition FALLING :: int where "FALLING = EDGE_FALLING"
definition BOTH :: int where "BOTH = EDGE_BOTH"
definition NONE :: int where "NONE = EDGE_NONE"

definition PUD_OFF :: int where "PUD_OFF = 0"
definition PUD_DOWN :: int where "PUD_DOWN = 1"
definition PUD_UP :: int where "PUD_UP = 2"

definition BOARD :: int where "BOARD = 10"
definition BCM :: int where "BCM = 11"

subsection \<open>The Board I/O Layer\<close>

text \<open>A Python callable handed to the native library is identified by a number.\<close>

type_synonym callback = nat

text \<open>
  Modelled from the spec: the native armbianio library (\<^verbatim>\<open>AIOInit\<close>,
  \<^verbatim>\<open>AIOAddGPIO\<close>, \<^verbatim>\<open>AIORemoveGPIO\<close>, \<^verbatim>\<open>AIOReadGPIO\<close>,
  \<^verbatim>\<open>AIOWriteGPIO\<close>, \<^verbatim>\<open>AIOWriteGPIOEdge\<close>, \<^verbatim>\<open>AIOAddGPIOCallback\<close>,
  \<^verbatim>\<open>AIORemoveGPIOCallback\<close>, \<^verbatim>\<open>AIOShutdown\<close>) is not among the sources.
  Section 6 of the spec lists its capabilities: init reports success or failure, a pin is
  added with a direction or an initial state and removed, a pin is read as a boolean and
  written with a boolean, the edge flag of a pin is set to a trigger, a callback is
  registered for a pin and a trigger and unregistered, and the session is shut down. By
  section 4.2 reading a pin that was written gives the level last written. The module
  ignores whatever status these calls return (only the result of init is looked at), so
  each is a total function on the state of the board.
\<close>

record board =
  detected :: bool
  session :: bool
  pins :: "int \<rightharpoonup> int"
  levels :: "int \<Rightarrow> bool"
  edges :: "int \<Rightarrow> int"
  callbacks :: "int \<rightharpoonup> (int \<times> callback)"

definition AIOInit :: "board \<Rightarrow> int \<times> board" where
  "AIOInit b = (if detected b then (1, b\<lparr>session := True\<rparr>) else (0, b))"

definition AIOShutdown :: "board \<Rightarrow> board" where
  "AIOShutdown b = b\<lparr>session := False\<rparr>"

definition AIOAddGPIO :: "int \<Rightarrow> int \<Rightarrow> board \<Rightarrow> board" where
  "AIOAddGPIO channel direction b = b\<lparr>pins := (pins b)(channel \<mapsto> direction)\<rparr>"

definition AIORemoveGPIO :: "int \<Rightarrow> board \<Rightarrow> board" where
  "AIORemoveGPIO channel b = b\<lparr>pins := (pins b)(channel := None)\<rparr>"

definition AIOReadGPIO :: "int \<Rightarrow> board \<Rightarrow> bool" where
  "AIOReadGPIO channel b = levels b channel"

definition AIOWriteGPIO :: "int \<Rightarrow> bool \<Rightarrow> board \<Rightarrow> board" where
  "AIOWriteGPIO channel state b = b\<lparr>levels := (levels b)(channel := state)\<rparr>"

definition AIOWriteGPIOEdge :: "int \<Rightarrow> int \<Rightarrow> board \<Rightarrow> board" where
  "AIOWriteGPIOEdge channel trigger b = b\<lparr>edges := (edges b)(channel := trigger)\<rparr>"

definition AIOAddGPIOCallback :: "int \<Rightarrow> int \<Rightarrow> callback \<Rightarrow> board \<Rightarrow> board" where
  "AIOAddGPIOCallback channel trigger cb b =
     b\<lparr>callbacks := (callbacks b)(channel \<mapsto> (trigger, cb))\<rparr>"

definition AIORemoveGPIOCallback :: "int \<Rightarrow> board \<Rightarrow> board" where
  "AIORemoveGPIOCallback channel b = b\<lparr>callbacks := (callbacks b)(channel := None)\<rparr>"

subsection \<open>State, arguments and errors\<close>

text \<open>
  The two dictionaries are association lists in insertion order, the order in which
  \<^verbatim>\<open>list(_exports.keys())\<close> enumerates them: \<open>map_of\<close> is \<^verbatim>\<open>get\<close>,
  \<open>AList.update\<close> is item assignment and \<open>AList.delete\<close> is \<^verbatim>\<open>del\<close>.
\<close>

record gpio_state =
  gpio_warnings :: bool
  mode :: "int option"
  exports :: "(int \<times> int) list"
  events :: "(int \<times> int) list"
  board :: board

definition initial_state :: "board \<Rightarrow> gpio_state" where
  "initial_state b =
     \<lparr>gpio_warnings = True, mode = None, exports = [], events = [], board = b\<rparr>"

text \<open>
  A channel argument of \<^verbatim>\<open>setup\<close>, \<^verbatim>\<open>output\<close> and \<^verbatim>\<open>cleanup\<close> is a pin
  number or a Python list, whose elements are channel arguments again.
\<close>

datatype chan = Chan int | Chans "chan list"

text \<open>
  The exceptions of the module, named as section 7 of the spec names them. All but the
  last three are \<^verbatim>\<open>RuntimeError\<close> in the source; \<open>InvalidArgument\<close> is a failed
  \<^verbatim>\<open>assert\<close>, \<open>NotSupported\<close> is \<^verbatim>\<open>NotImplementedError\<close>, and
  \<open>TypeError\<close> is what Python raises when a list is used as a dictionary key.
\<close>

datatype error =
    BoardNotDetected
  | ModeNotSet
  | AlreadyConfigured int
  | ChannelNotConfigured int
  | WrongDirection int
  | EventConflict
  | NoEventRegistered
  | InvalidArgument
  | NotSupported
  | TypeError

type_synonym 'a result = "(error + 'a) \<times> gpio_state"

subsection \<open>Board Session\<close>

definition check_configured :: "int \<Rightarrow> int option \<Rightarrow> gpio_state \<Rightarrow> error option" where
  "check_configured channel direction s =
     (case map_of (exports s) channel of
        None \<Rightarrow> Some (ChannelNotConfigured channel)
      | Some configured \<Rightarrow>
          (case direction of
             None \<Rightarrow> None
           | Some d \<Rightarrow> if d \<noteq> configured then Some (WrongDirection channel) else None))"

definition getmode :: "gpio_state \<Rightarrow> int option" where
  "getmode s = mode s"

definition setmode :: "int \<Rightarrow> gpio_state \<Rightarrow> unit result" where
  "setmode m s =
     (let (rc, b) = (if mode s = None then AIOInit (board s) else (1, board s));
          s1 = s\<lparr>board := b\<rparr>
      in if rc \<noteq> 1 then (Inl BoardNotDetected, s1)
         else if m \<notin> set [BCM, BOARD] then (Inl InvalidArgument, s1)
         else (Inr (), s1\<lparr>mode := Some m\<rparr>))"

definition setwarnings :: "bool \<Rightarrow> gpio_state \<Rightarrow> gpio_state" where
  "setwarnings enabled s = s\<lparr>gpio_warnings := enabled\<rparr>"

subsection \<open>Channel Registry\<close>

text \<open>
  \<^verbatim>\<open>warnings.warn\<close> prints an advisory and changes none of the variables, so the
  \<^verbatim>\<open>pull_up_down\<close> and \<^verbatim>\<open>bouncetime\<close> arguments have no effect on the state.
  In \<^verbatim>\<open>setup\<close> the assignment \<^verbatim>\<open>_exports[channel] = direction\<close> stands after the
  \<^verbatim>\<open>if isinstance(channel, list)\<close> statement, not inside its \<^verbatim>\<open>else\<close>: it also
  runs when the channel is a list, where it raises \<^verbatim>\<open>TypeError\<close>.
\<close>

fun gpio_setup :: "chan \<Rightarrow> int \<Rightarrow> bool option \<Rightarrow> int option \<Rightarrow> gpio_state \<Rightarrow> unit result"
  and setup_each :: "chan list \<Rightarrow> int \<Rightarrow> bool option \<Rightarrow> gpio_state \<Rightarrow> unit result"
where
  "gpio_setup (Chans chs) direction initial pull_up_down s =
     (if mode s = None then (Inl ModeNotSet, s)
      else (case setup_each chs direction initial s of
              (Inl e, s') \<Rightarrow> (Inl e, s')
            | (Inr u, s') \<Rightarrow> (Inl TypeError, s')))"
| "gpio_setup (Chan channel) direction initial pull_up_down s =
     (if mode s = None then (Inl ModeNotSet, s)
      else if channel \<in> set (map fst (exports s)) then (Inl (AlreadyConfigured channel), s)
      else (let b = (case initial of
                       Some i \<Rightarrow> if direction = OUT
                                 then AIOAddGPIO channel (of_bool i) (board s)
                                 else AIOAddGPIO channel direction (board s)
                     | None \<Rightarrow> AIOAddGPIO channel direction (board s))
            in (Inr (), s\<lparr>board := b, exports := AList.update channel direction (exports s)\<rparr>)))"
| "setup_each [] direction initial s = (Inr (), s)"
| "setup_each (ch # chs) direction initial s =
     (case gpio_setup ch direction initial None s of
        (Inl e, s') \<Rightarrow> (Inl e, s')
      | (Inr u, s') \<Rightarrow> setup_each chs direction initial s')"

definition input :: "int \<Rightarrow> gpio_state \<Rightarrow> bool result" where
  "input channel s =
     (case check_configured channel None s of
        Some e \<Rightarrow> (Inl e, s)
      | None \<Rightarrow> (Inr (AIOReadGPIO channel (board s)), s))"

fun gpio_output :: "chan \<Rightarrow> bool \<Rightarrow> gpio_state \<Rightarrow> unit result"
  and output_each :: "chan list \<Rightarrow> bool \<Rightarrow> gpio_state \<Rightarrow> unit result"
where
  "gpio_output (Chans chs) state s = output_each chs state s"
| "gpio_output (Chan channel) state s =
     (case check_configured channel (Some OUT) s of
        Some e \<Rightarrow> (Inl e, s)
      | None \<Rightarrow> (Inr (), s\<lparr>board := AIOWriteGPIO channel state (board s)\<rparr>))"
| "output_each [] state s = (Inr (), s)"
| "output_each (ch # chs) state s =
     (case gpio_output ch state s of
        (Inl e, s') \<Rightarrow> (Inl e, s')
      | (Inr u, s') \<Rightarrow> output_each chs state s')"

subsection \<open>Edge Wait Engine\<close>

text \<open>
  The variables of the polling loop; \<open>sampled\<close> is the variable \<^verbatim>\<open>value\<close> of
  the source. \<open>polls\<close> counts the iterations made so far; it is not a variable of the
  source and only selects the next sample.
\<close>

record wait_vars =
  originalValue :: bool
  sampled :: bool
  valueExit :: bool
  timeoutExit :: bool
  polls :: nat

text \<open>
  The levels that \<^verbatim>\<open>AIOReadGPIO\<close> reports while the caller is blocked and the
  readings of \<^verbatim>\<open>time.time()\<close> are decided by the world outside the program. They
  are parameters of the model: \<open>reads 0\<close> is the priming sample and \<open>clock 0\<close> the
  start time, \<open>reads (Suc i)\<close> and \<open>clock (Suc i)\<close> are the sample and the clock
  reading of iteration \<open>i\<close> of the loop. Clock readings and the timeout are real numbers
  of seconds. \<open>wait_body\<close> is one pass through the body of the \<^verbatim>\<open>while\<close> loop.
\<close>

definition wait_body ::
  "(nat \<Rightarrow> bool) \<Rightarrow> (nat \<Rightarrow> real) \<Rightarrow> int \<Rightarrow> real \<Rightarrow> real \<Rightarrow> wait_vars \<Rightarrow> wait_vars" where
  "wait_body reads clock trigger timeout startTime v =
     (let v1 = v\<lparr>sampled := reads (Suc (polls v))\<rparr>;
          v2 = (if sampled v1 \<noteq> originalValue v1
                then (if trigger = BOTH then v1\<lparr>valueExit := True\<rparr>
                      else v1\<lparr>valueExit := (of_bool (sampled v1) = trigger),
                              originalValue := sampled v1\<rparr>)
                else v1);
          v3 = (if timeout > 0
                then v2\<lparr>timeoutExit := (clock (Suc (polls v)) - startTime > timeout)\<rparr>
                else v2)
      in v3\<lparr>polls := Suc (polls v)\<rparr>)"

partial_function (option) wait_loop ::
  "(nat \<Rightarrow> bool) \<Rightarrow> (nat \<Rightarrow> real) \<Rightarrow> int \<Rightarrow> real \<Rightarrow> real \<Rightarrow> wait_vars \<Rightarrow> wait_vars option" where
  "wait_loop reads clock trigger timeout startTime v =
     (if \<not> valueExit v \<and> \<not> timeoutExit v
      then wait_loop reads clock trigger timeout startTime
             (wait_body reads clock trigger timeout startTime v)
      else Some v)"

text \<open>
  The variables as they stand when the loop is entered: the priming sample is both the
  baseline and the current value, and neither exit flag is set.
\<close>

definition wait_start :: "(nat \<Rightarrow> bool) \<Rightarrow> wait_vars" where
  "wait_start reads = \<lparr>originalValue = reads 0, sampled = reads 0,
                        valueExit = False, timeoutExit = False, polls = 0\<rparr>"

text \<open>
  \<open>wait_for_edge\<close> is \<open>None\<close> when the loop never ends, and otherwise the outcome
  of the call with the state it leaves.
\<close>

definition wait_for_edge ::
  "(nat \<Rightarrow> bool) \<Rightarrow> (nat \<Rightarrow> real) \<Rightarrow> int \<Rightarrow> int \<Rightarrow> real \<Rightarrow> gpio_state \<Rightarrow> int result option" where
  "wait_for_edge reads clock channel trigger timeout s =
     (case check_configured channel (Some IN) s of
        Some e \<Rightarrow> Some (Inl e, s)
      | None \<Rightarrow>
          if trigger \<notin> set [RISING, FALLING, BOTH] then Some (Inl InvalidArgument, s)
          else if channel \<in> set (map fst (events s)) then Some (Inl EventConflict, s)
          else (let b = AIOWriteGPIOEdge channel trigger (board s);
                    startTime = clock 0
                in case wait_loop reads clock trigger timeout startTime (wait_start reads) of
                     None \<Rightarrow> None
                   | Some v \<Rightarrow>
                       Some (Inr channel, s\<lparr>board := AIOWriteGPIOEdge channel NONE b\<rparr>)))"

subsection \<open>Event Callback Engine\<close>

definition add_event_detect ::
  "int \<Rightarrow> int \<Rightarrow> callback option \<Rightarrow> int option \<Rightarrow> gpio_state \<Rightarrow> unit result" where
  "add_event_detect channel trigger cb bouncetime s =
     (case check_configured channel (Some IN) s of
        Some e \<Rightarrow> (Inl e, s)
      | None \<Rightarrow>
          if trigger \<notin> set [RISING, FALLING, BOTH] then (Inl InvalidArgument, s)
          else if channel \<in> set (map fst (events s)) then (Inl EventConflict, s)
          else (let s1 = s\<lparr>events := AList.update channel trigger (events s)\<rparr>
                in case cb of
                     None \<Rightarrow> (Inr (), s1)
                   | Some f \<Rightarrow>
                       (Inr (), s1\<lparr>board := AIOAddGPIOCallback channel trigger f (board s1)\<rparr>)))"

definition remove_event_detect :: "int \<Rightarrow> gpio_state \<Rightarrow> unit result" where
  "remove_event_detect channel s =
     (case check_configured channel (Some IN) s of
        Some e \<Rightarrow> (Inl e, s)
      | None \<Rightarrow>
          if channel \<in> set (map fst (events s))
          then (Inr (), s\<lparr>board := AIORemoveGPIOCallback channel (board s),
                          events := AList.delete channel (events s)\<rparr>)
          else (Inl NoEventRegistered, s))"

definition add_event_callback :: "int \<Rightarrow> callback \<Rightarrow> int option \<Rightarrow> gpio_state \<Rightarrow> unit result" where
  "add_event_callback channel cb bouncetime s =
     (case check_configured channel (Some IN) s of
        Some e \<Rightarrow> (Inl e, s)
      | None \<Rightarrow>
          (case map_of (events s) channel of
             Some trigger \<Rightarrow>
               (Inr (), s\<lparr>board := AIOAddGPIOCallback channel trigger cb (board s)\<rparr>)
           | None \<Rightarrow> (Inl NoEventRegistered, s)))"

definition event_detected :: "int \<Rightarrow> gpio_state \<Rightarrow> bool result" where
  "event_detected channel s =
     (case check_configured channel (Some IN) s of
        Some e \<Rightarrow> (Inl e, s)
      | None \<Rightarrow> (Inl NotSupported, s))"

subsection \<open>Cleanup Orchestrator\<close>

text \<open>
  \<open>cleanup_channel\<close> is \<^verbatim>\<open>cleanup\<close> called with a pin number or a list,
  \<open>cleanup_each\<close> is its \<^verbatim>\<open>for\<close> loop, and \<open>cleanup\<close> adds the call without
  an argument (\<open>None\<close>).
\<close>

fun cleanup_channel :: "chan \<Rightarrow> gpio_state \<Rightarrow> unit result"
  and cleanup_each :: "chan list \<Rightarrow> gpio_state \<Rightarrow> unit result"
where
  "cleanup_channel (Chans chs) s = cleanup_each chs s"
| "cleanup_channel (Chan channel) s =
     (case check_configured channel None s of
        Some e \<Rightarrow> (Inl e, s)
      | None \<Rightarrow>
          (let s1 = (if map_of (events s) channel \<noteq> None
                     then s\<lparr>board := AIORemoveGPIOCallback channel (board s),
                            events := AList.delete channel (events s)\<rparr>
                     else s)
           in (Inr (), s1\<lparr>board := AIORemoveGPIO channel (board s1),
                          exports := AList.delete channel (exports s1)\<rparr>)))"
| "cleanup_each [] s = (Inr (), s)"
| "cleanup_each (ch # chs) s =
     (case cleanup_channel ch s of
        (Inl e, s') \<Rightarrow> (Inl e, s')
      | (Inr u, s') \<Rightarrow> cleanup_each chs s')"

definition cleanup :: "chan option \<Rightarrow> gpio_state \<Rightarrow> unit result" where
  "cleanup channel s =
     (case channel of
        None \<Rightarrow>
          (case cleanup_channel (Chans (map Chan (map fst (exports s)))) s of
             (Inl e, s') \<Rightarrow> (Inl e, s')
           | (Inr u, s') \<Rightarrow>
               (Inr (), (setwarnings True s')\<lparr>mode := None, board := AIOShutdown (board s')\<rparr>))
      | Some ch \<Rightarrow> cleanup_channel ch s)"

subsection \<open>Concrete sessions\<close>

text \<open>
  A board that is detected, with every pin low and no edge flag armed; the session after
  \<^verbatim>\<open>setmode(BCM)\<close>; that session after \<^verbatim>\<open>setup(5, IN)\<close>; and after
  \<^verbatim>\<open>setup([5, 6, 7], OUT)\<close>.
\<close>

definition board0 :: board where
  "board0 = \<lparr>detected = True, session = False, pins = Map.empty, levels = (\<lambda>c. False),
             edges = (\<lambda>c. NONE), callbacks = Map.empty\<rparr>"

definition active0 :: gpio_state where
  "active0 = snd (setmode BCM (initial_state board0))"

definition input5 :: gpio_state where
  "input5 = snd (gpio_setup (Chan 5) IN None None active0)"

definition three_out :: gpio_state where
  "three_out = snd (gpio_setup (Chans [Chan 5, Chan 6, Chan 7]) OUT None None active0)"

text \<open>
  The session \<open>input5\<close> after \<^verbatim>\<open>add_event_detect(5, RISING)\<close>, and five
  courses of the outside world during a wait: a pin that is low for two samples and high
  from then on, a pin that is high, low for one sample and high again, a pin that stays
  high, a pin that stays low, and a clock that advances by half a second from one reading
  to the next.
\<close>

definition watched5 :: gpio_state where
  "watched5 = snd (add_event_detect 5 RISING None None input5)"

definition level_rises :: "nat \<Rightarrow> bool" where
  "level_rises i = (2 \<le> i)"

definition level_dips :: "nat \<Rightarrow> bool" where
  "level_dips i = (i \<noteq> 1)"

definition level_high :: "nat \<Rightarrow> bool" where
  "level_high i = True"

definition level_low :: "nat \<Rightarrow> bool" where
  "level_low i = False"

definition clock_half :: "nat \<Rightarrow> real" where
  "clock_half i = real i / 2"

subsection \<open>Reachable states and the registry invariant\<close>

text \<open>
  The states a program can bring the module into: the state at import, on any board, and
  the state left by any call of a public operation, whether the call returns or raises. A
  call of \<^verbatim>\<open>wait_for_edge\<close> that never ends leaves no state.
\<close>

inductive reachable :: "gpio_state \<Rightarrow> bool" where
  start: "reachable (initial_state b)"
| after_setmode: "reachable s \<Longrightarrow> reachable (snd (setmode m s))"
| after_setwarnings: "reachable s \<Longrightarrow> reachable (setwarnings enabled s)"
| after_setup:
    "reachable s \<Longrightarrow> reachable (snd (gpio_setup ch direction initial pull_up_down s))"
| after_input: "reachable s \<Longrightarrow> reachable (snd (input channel s))"
| after_output: "reachable s \<Longrightarrow> reachable (snd (gpio_output ch state s))"
| after_wait_for_edge:
    "reachable s \<Longrightarrow> wait_for_edge reads clock channel trigger timeout s = Some (r, s')
       \<Longrightarrow> reachable s'"
| after_add_event_detect:
    "reachable s \<Longrightarrow> reachable (snd (add_event_detect channel trigger cb bouncetime s))"
| after_remove_event_detect: "reachable s \<Longrightarrow> reachable (snd (remove_event_detect channel s))"
| after_add_event_callback:
    "reachable s \<Longrightarrow> reachable (snd (add_event_callback channel f bouncetime s))"
| after_event_detected: "reachable s \<Longrightarrow> reachable (snd (event_detected channel s))"
| after_cleanup: "reachable s \<Longrightarrow> reachable (snd (cleanup ch s))"

text \<open>
  \<open>covered ev ex\<close>: every key of the event table \<open>ev\<close> is configured as \<open>IN\<close>
  in the channel table \<open>ex\<close>.
\<close>

definition covered :: "(int \<times> int) list \<Rightarrow> (int \<times> int) list \<Rightarrow> bool" where
  "covered ev ex \<longleftrightarrow> (\<forall>c. c \<in> set (map fst ev) \<longrightarrow> map_of ex c = Some IN)"

definition registry_inv :: "gpio_state \<Rightarrow> bool" where
  "registry_inv s \<longleftrightarrow> covered (events s) (exports s) \<and> distinct (map fst (events s))"

text \<open>
  \<open>on_target trigger v\<close>: if the loop variables \<open>v\<close> record an exit by value, the
  sample that caused it is the level the trigger waits for.
\<close>

definition on_target :: "int \<Rightarrow> wait_vars \<Rightarrow> bool" where
  "on_target trigger v \<longleftrightarrow> (valueExit v \<longrightarrow> (sampled v \<longleftrightarrow> trigger = RISING))"

text \<open>
  \<open>by_transition reads clock trigger timeout startTime v\<close>: if the loop variables
  \<open>v\<close> record an exit by value, they are the outcome of a pass, made while the loop was
  running, whose sample differed from the baseline of that moment and was the level the
  trigger waits for.
\<close>

definition by_transition ::
  "(nat \<Rightarrow> bool) \<Rightarrow> (nat \<Rightarrow> real) \<Rightarrow> int \<Rightarrow> real \<Rightarrow> real \<Rightarrow> wait_vars \<Rightarrow> bool" where
  "by_transition reads clock trigger timeout startTime v \<longleftrightarrow>
     (valueExit v \<longrightarrow>
        (\<exists>u. \<not> valueExit u \<and> \<not> timeoutExit u \<and>
             v = wait_body reads clock trigger timeout startTime u \<and>
             reads (Suc (polls u)) \<noteq> originalValue u \<and>
             (reads (Suc (polls u)) \<longleftrightarrow> trigger = RISING)))"

section \<open>Properties\<close>

subsection \<open>Auxiliary facts\<close>

lemmas gpio_consts =
  OUT_def IN_def HIGH_def LOW_def EDGE_FALLING_def EDGE_RISING_def EDGE_BOTH_def
  EDGE_NONE_def RISING_def FALLING_def BOTH_def NONE_def BOARD_def BCM_def

lemma active0_simps:
  "mode active0 = Some BCM" "exports active0 = []" "events active0 = []"
  by (simp_all add: active0_def setmode_def initial_state_def AIOInit_def board0_def gpio_consts)

lemma input5_simps:
  "mode input5 = Some BCM" "exports input5 = [(5, IN)]" "events input5 = []"
  by (simp_all add: input5_def active0_simps)

lemma three_out_simps:
  "mode three_out = Some BCM" "exports three_out = [(5, OUT), (6, OUT), (7, OUT)]"
  "events three_out = []"
  by (simp_all add: three_out_def active0_simps Let_def)

lemma three_out_levels: "levels (board three_out) 7 = False"
  by (simp add: three_out_def active0_def setmode_def initial_state_def AIOInit_def board0_def
        gpio_consts Let_def AIOAddGPIO_def)

lemma in_keys_iff: "k \<in> fst ` set al \<longleftrightarrow> map_of al k \<noteq> None"
  by (simp add: map_of_eq_None_iff)

lemma cleanup_each_append:
  "cleanup_each (xs @ ys) s =
     (case cleanup_each xs s of (Inl e, s') \<Rightarrow> (Inl e, s') | (Inr u, s') \<Rightarrow> cleanup_each ys s')"
  by (induction xs arbitrary: s) (simp_all split: prod.splits sum.splits)

subsection \<open>List form of setup\<close>

text \<open>
  Claim C1 says that \<^verbatim>\<open>setup\<close> on a list sets up each element in order and completes
  without error when every element succeeds, as in \<^verbatim>\<open>setup([5,6,7], OUT)\<close> followed
  by \<^verbatim>\<open>output([5,6,7], HIGH)\<close>. The source does set up the three channels in order,
  and the later \<^verbatim>\<open>output\<close> succeeds, but the call itself ends in \<^verbatim>\<open>TypeError\<close>:
  after the loop it executes \<^verbatim>\<open>_exports[channel] = direction\<close> with the list as key.
\<close>

theorem setup_list_raises_type_error:
  "fst (setup_each [Chan 5, Chan 6, Chan 7] OUT None active0) = Inr () \<and>
   fst (gpio_setup (Chans [Chan 5, Chan 6, Chan 7]) OUT None None active0) = Inl TypeError \<and>
   exports (snd (gpio_setup (Chans [Chan 5, Chan 6, Chan 7]) OUT None None active0))
     = [(5, OUT), (6, OUT), (7, OUT)] \<and>
   fst (gpio_output (Chans [Chan 5, Chan 6, Chan 7]) HIGH
          (snd (gpio_setup (Chans [Chan 5, Chan 6, Chan 7]) OUT None None active0))) = Inr ()"
  by (simp add: active0_simps Let_def check_configured_def)

text \<open>No call of \<^verbatim>\<open>setup\<close> with a list returns normally, whatever the list.\<close>

lemma setup_list_never_returns:
  "fst (gpio_setup (Chans chs) direction initial pull_up_down s) \<noteq> Inr u"
  by (simp split: prod.splits sum.splits)

subsection \<open>List form of cleanup\<close>

text \<open>
  Claim C2 says that \<^verbatim>\<open>cleanup\<close> on a list does not stop early at an unconfigured
  element: every element still goes through the single-channel path. It fails as stated:
  with only channel 5 configured, \<^verbatim>\<open>cleanup([4, 5])\<close> raises at channel 4 and channel 5
  stays configured, although \<^verbatim>\<open>cleanup(5)\<close> on its own would have removed it.
\<close>

theorem cleanup_list_skips_after_failure:
  "fst (cleanup (Some (Chans [Chan 4, Chan 5])) input5) = Inl (ChannelNotConfigured 4) \<and>
   exports (snd (cleanup (Some (Chans [Chan 4, Chan 5])) input5)) = [(5, IN)] \<and>
   fst (cleanup (Some (Chan 5)) input5) = Inr () \<and>
   exports (snd (cleanup (Some (Chan 5)) input5)) = []"
  by (simp add: cleanup_def check_configured_def input5_simps)

text \<open>
  Claim C2 as amended: \<^verbatim>\<open>cleanup\<close> on a list applies the single-channel path to the
  elements in order and stops at the first element that fails. When the elements \<open>xs\<close>
  are cleaned up without error and the next element \<open>c\<close> is then unconfigured, the call
  raises \<open>ChannelNotConfigured c\<close> in the state reached after \<open>xs\<close>: the elements
  \<open>ys\<close> behind \<open>c\<close> are not processed.
\<close>

theorem cleanup_list_stops_at_first_failure:
  assumes "cleanup (Some (Chans xs)) s = (Inr (), s1)"
      and "c \<notin> set (map fst (exports s1))"
  shows "cleanup (Some (Chans (xs @ Chan c # ys))) s = (Inl (ChannelNotConfigured c), s1)"
  using assms
  by (simp add: cleanup_def cleanup_each_append check_configured_def in_keys_iff)

theorem cleanup_list_stops_at_first_failure_witness:
  "cleanup (Some (Chans [Chan 5])) three_out
     = (Inr (), snd (cleanup (Some (Chans [Chan 5])) three_out)) \<and>
   4 \<notin> set (map fst (exports (snd (cleanup (Some (Chans [Chan 5])) three_out)))) \<and>
   cleanup (Some (Chans [Chan 5, Chan 4, Chan 6])) three_out
     = (Inl (ChannelNotConfigured 4), snd (cleanup (Some (Chans [Chan 5])) three_out)) \<and>
   map fst (exports (snd (cleanup (Some (Chans [Chan 5, Chan 4, Chan 6])) three_out))) = [6, 7]"
proof -
  have ok: "cleanup (Some (Chans [Chan 5])) three_out
              = (Inr (), snd (cleanup (Some (Chans [Chan 5])) three_out))"
    by (simp add: cleanup_def check_configured_def three_out_simps)
  have free: "4 \<notin> set (map fst (exports (snd (cleanup (Some (Chans [Chan 5])) three_out))))"
    by (simp add: cleanup_def check_configured_def three_out_simps)
  have left: "map fst (exports (snd (cleanup (Some (Chans [Chan 5])) three_out))) = [6, 7]"
    by (simp add: cleanup_def check_configured_def three_out_simps)
  from cleanup_list_stops_at_first_failure [OF ok free, of "[Chan 6]"] ok free left
  show ?thesis by simp
qed

subsection \<open>event_detected\<close>

text \<open>
  Claim C3 says that \<^verbatim>\<open>event_detected\<close> signals \<open>NotSupported\<close> for every channel
  argument. It fails as stated: the function checks first that the channel is configured as
  an input, and on a channel that was never set up it raises \<open>ChannelNotConfigured\<close>.
\<close>

theorem event_detected_unconfigured:
  "fst (event_detected 5 active0) = Inl (ChannelNotConfigured 5)"
  by (simp add: event_detected_def check_configured_def active0_simps)

text \<open>
  Claim C3 as amended: \<^verbatim>\<open>event_detected\<close> never returns a value and never changes the
  state. It raises \<open>ChannelNotConfigured\<close> when the channel has no configuration entry,
  \<open>WrongDirection\<close> when the entry is not \<open>IN\<close>, and \<open>NotSupported\<close> for every
  channel configured as \<open>IN\<close>.
\<close>

theorem event_detected_outcome:
  "event_detected c s =
     (Inl (case map_of (exports s) c of
             None \<Rightarrow> ChannelNotConfigured c
           | Some d \<Rightarrow> if d = IN then NotSupported else WrongDirection c), s)"
  by (auto simp: event_detected_def check_configured_def split: option.splits)

theorem event_detected_outcome_witness:
  "event_detected 5 input5 = (Inl NotSupported, input5) \<and>
   event_detected 6 input5 = (Inl (ChannelNotConfigured 6), input5) \<and>
   event_detected 7 three_out = (Inl (WrongDirection 7), three_out)"
  using event_detected_outcome [of 5 input5] event_detected_outcome [of 6 input5]
    event_detected_outcome [of 7 three_out]
  by (simp add: input5_simps three_out_simps gpio_consts)

subsection \<open>Releasing an event entry\<close>

text \<open>
  Claim C8: for a channel \<open>c\<close> configured as \<open>IN\<close> with no event entry, the sequence
  \<^verbatim>\<open>add_event_detect(c, BOTH)\<close>, \<^verbatim>\<open>remove_event_detect(c)\<close>,
  \<^verbatim>\<open>add_event_detect(c, RISING)\<close> succeeds at every step, whatever callbacks and
  bounce times are given. The removal leaves both registries as they were before the first
  call, so the second registration meets no conflict and records \<open>RISING\<close>.
\<close>

theorem event_detect_round_trip:
  assumes "map_of (exports s) c = Some IN" and "c \<notin> set (map fst (events s))"
  shows "\<exists>s1 s2 s3.
           add_event_detect c BOTH cb1 bt1 s = (Inr (), s1) \<and>
           remove_event_detect c s1 = (Inr (), s2) \<and>
           events s2 = events s \<and> exports s2 = exports s \<and>
           add_event_detect c RISING cb2 bt2 s2 = (Inr (), s3) \<and>
           map_of (events s3) c = Some RISING"
  using assms
  by (cases cb1; cases cb2)
     (simp_all add: add_event_detect_def remove_event_detect_def check_configured_def
        gpio_consts dom_update delete_update_same update_conv')

theorem event_detect_round_trip_witness:
  "map_of (exports input5) 5 = Some IN \<and> 5 \<notin> set (map fst (events input5)) \<and>
   (\<exists>s1 s2 s3.
      add_event_detect 5 BOTH (Some 1) None input5 = (Inr (), s1) \<and>
      remove_event_detect 5 s1 = (Inr (), s2) \<and>
      events s2 = events input5 \<and> exports s2 = exports input5 \<and>
      add_event_detect 5 RISING None None s2 = (Inr (), s3) \<and>
      map_of (events s3) 5 = Some RISING)"
  using event_detect_round_trip [of input5 5 "Some 1" None None None]
  by (simp add: input5_simps)

subsection \<open>input\<close>

text \<open>
  Claim C9: \<^verbatim>\<open>input(c)\<close> fails with \<open>ChannelNotConfigured\<close> exactly when \<open>c\<close> has
  no configuration entry and fails in no other way; on a configured channel it returns what
  the board reads and leaves the state alone. On a channel configured as \<open>OUT\<close> it
  succeeds, and after \<^verbatim>\<open>output(c, v)\<close> it returns \<open>v\<close>, the level last driven.
\<close>

theorem input_fails_iff_unconfigured:
  "(fst (input c s) = Inl (ChannelNotConfigured c) \<longleftrightarrow> c \<notin> set (map fst (exports s))) \<and>
   (\<forall>e. fst (input c s) = Inl e \<longrightarrow> e = ChannelNotConfigured c \<and> c \<notin> set (map fst (exports s))) \<and>
   (c \<in> set (map fst (exports s)) \<longrightarrow> input c s = (Inr (AIOReadGPIO c (board s)), s)) \<and>
   (map_of (exports s) c = Some OUT \<longrightarrow>
      fst (gpio_output (Chan c) v s) = Inr () \<and>
      input c (snd (gpio_output (Chan c) v s)) = (Inr v, snd (gpio_output (Chan c) v s)))"
  by (auto simp: input_def check_configured_def in_keys_iff AIOReadGPIO_def AIOWriteGPIO_def
           split: option.splits)

theorem input_fails_iff_unconfigured_witness:
  "map_of (exports three_out) 7 = Some OUT \<and> 7 \<in> set (map fst (exports three_out)) \<and>
   fst (input 7 three_out) = Inr False \<and>
   fst (gpio_output (Chan 7) HIGH three_out) = Inr () \<and>
   fst (input 7 (snd (gpio_output (Chan 7) HIGH three_out))) = Inr True \<and>
   4 \<notin> set (map fst (exports three_out)) \<and>
   fst (input 4 three_out) = Inl (ChannelNotConfigured 4)"
proof -
  have out: "map_of (exports three_out) 7 = Some OUT"
    and cfg: "7 \<in> set (map fst (exports three_out))"
    and free: "4 \<notin> set (map fst (exports three_out))"
    by (simp_all add: three_out_simps)
  note a = input_fails_iff_unconfigured [of 7 three_out HIGH]
  note b = input_fails_iff_unconfigured [of 4 three_out HIGH]
  from a cfg have r: "input 7 three_out = (Inr (AIOReadGPIO 7 (board three_out)), three_out)"
    by blast
  from a out have w: "fst (gpio_output (Chan 7) HIGH three_out) = Inr ()"
    and rw: "input 7 (snd (gpio_output (Chan 7) HIGH three_out))
               = (Inr HIGH, snd (gpio_output (Chan 7) HIGH three_out))"
    by blast+
  from b free have f: "fst (input 4 three_out) = Inl (ChannelNotConfigured 4)"
    by blast
  from r have r': "fst (input 7 three_out) = Inr False"
    by (simp add: AIOReadGPIO_def three_out_levels)
  from rw have rw': "fst (input 7 (snd (gpio_output (Chan 7) HIGH three_out))) = Inr True"
    by (simp add: HIGH_def)
  from out cfg free r' w rw' f show ?thesis by blast
qed

subsection \<open>The registry invariant\<close>

text \<open>
  Facts about the two tables first, then one preservation lemma for each public operation,
  and rule induction over the reachable states.
\<close>

lemma keys_delete: "fst ` set (AList.delete k al) = fst ` set al - {k}"
  using delete_keys [of k al] by (metis list.set_map set_removeAll)

lemma covered_Nil: "covered [] ex"
  by (simp add: covered_def)

lemma covered_delete_both: "covered ev ex \<Longrightarrow> covered (AList.delete k ev) (AList.delete k ex)"
  by (simp add: covered_def keys_delete delete_conv')

lemma covered_delete_absent:
  "covered ev ex \<Longrightarrow> map_of ev k = None \<Longrightarrow> covered ev (AList.delete k ex)"
  unfolding covered_def map_of_eq_None_iff by (simp add: delete_conv')

lemma covered_delete_event: "covered ev ex \<Longrightarrow> covered (AList.delete k ev) ex"
  by (simp add: covered_def keys_delete)

lemma covered_update_event:
  "covered ev ex \<Longrightarrow> map_of ex k = Some IN \<Longrightarrow> covered (AList.update k t ev) ex"
  by (auto simp: covered_def dom_update)

lemma covered_update_export:
  "covered ev ex \<Longrightarrow> k \<notin> set (map fst ex) \<Longrightarrow> covered ev (AList.update k d ex)"
  unfolding covered_def by (simp add: update_conv' in_keys_iff) fastforce


lemma registry_inv_cong:
  "exports s' = exports s \<Longrightarrow> events s' = events s \<Longrightarrow> registry_inv s' = registry_inv s"
  by (simp add: registry_inv_def)

lemma setmode_registries:
  "exports (snd (setmode m s)) = exports s" "events (snd (setmode m s)) = events s"
  by (simp_all add: setmode_def Let_def split: prod.splits)

lemma input_state: "snd (input c s) = s"
  by (simp add: input_def split: option.splits)

lemma event_detected_state: "snd (event_detected c s) = s"
  by (simp add: event_detected_def split: option.splits)

lemma output_registries:
  "exports (snd (gpio_output ch v s)) = exports s \<and> events (snd (gpio_output ch v s)) = events s"
  "exports (snd (output_each chs v s)) = exports s \<and> events (snd (output_each chs v s)) = events s"
  by (induction ch v s and chs v s rule: gpio_output_output_each.induct)
     (auto split: option.splits prod.splits sum.splits)

lemma wait_for_edge_registries:
  "wait_for_edge reads clock c t timeout s = Some (r, s') \<Longrightarrow>
     exports s' = exports s \<and> events s' = events s \<and> mode s' = mode s \<and>
     gpio_warnings s' = gpio_warnings s"
  by (auto simp: wait_for_edge_def Let_def split: option.splits if_splits)

lemma add_event_callback_registries:
  "exports (snd (add_event_callback c f bt s)) = exports s"
  "events (snd (add_event_callback c f bt s)) = events s"
  by (simp_all add: add_event_callback_def split: option.splits)

lemma setup_inv:
  "registry_inv s \<Longrightarrow> registry_inv (snd (gpio_setup ch d i p s))"
  "registry_inv s \<Longrightarrow> registry_inv (snd (setup_each chs d i s))"
proof (induction ch d i p s and chs d i s rule: gpio_setup_setup_each.induct)
  case (1 chs direction initial pull_up_down s)
  then show ?case by (auto split: prod.splits sum.splits)
next
  case (2 channel direction initial pull_up_down s)
  then show ?case
    by (auto simp: registry_inv_def Let_def covered_update_export split: option.splits)
next
  case (3 direction initial s)
  then show ?case by simp
next
  case (4 ch chs direction initial s)
  then show ?case by (auto split: prod.splits sum.splits)
qed

lemma cleanup_channel_inv:
  "registry_inv s \<Longrightarrow> registry_inv (snd (cleanup_channel ch s))"
  "registry_inv s \<Longrightarrow> registry_inv (snd (cleanup_each chs s))"
proof (induction ch s and chs s rule: cleanup_channel_cleanup_each.induct)
  case (1 chs s)
  then show ?case by simp
next
  case (2 channel s)
  then have cov: "covered (events s) (exports s)" and dist: "distinct (map fst (events s))"
    by (simp_all add: registry_inv_def)
  show ?case
  proof (cases "check_configured channel None s")
    case (Some e)
    with 2 show ?thesis by simp
  next
    case None
    show ?thesis
    proof (cases "map_of (events s) channel = None")
      case True
      from cov True have "covered (events s) (AList.delete channel (exports s))"
        by (rule covered_delete_absent)
      with dist None True show ?thesis by (simp add: registry_inv_def)
    next
      case False
      from cov have "covered (AList.delete channel (events s)) (AList.delete channel (exports s))"
        by (rule covered_delete_both)
      with dist None False show ?thesis by (simp add: registry_inv_def distinct_delete)
    qed
  qed
next
  case (3 s)
  then show ?case by simp
next
  case (4 ch chs s)
  then show ?case by (auto split: prod.splits sum.splits)
qed

lemma cleanup_inv: "registry_inv s \<Longrightarrow> registry_inv (snd (cleanup ch s))"
proof (cases ch)
  case None
  assume inv: "registry_inv s"
  let ?r = "cleanup_channel (Chans (map Chan (map fst (exports s)))) s"
  from inv have "registry_inv (snd ?r)" by (rule cleanup_channel_inv)
  then show ?thesis using None
    by (cases ?r; cases "fst ?r")
       (simp_all add: cleanup_def setwarnings_def registry_inv_def)
next
  case (Some c)
  assume "registry_inv s"
  then show ?thesis using Some by (simp add: cleanup_def cleanup_channel_inv)
qed

lemma add_event_detect_inv:
  "registry_inv s \<Longrightarrow> registry_inv (snd (add_event_detect c t cb bt s))"
  by (cases cb)
     (auto simp: add_event_detect_def registry_inv_def check_configured_def Let_def
        covered_update_event distinct_update split: option.splits if_splits)

lemma remove_event_detect_inv:
  "registry_inv s \<Longrightarrow> registry_inv (snd (remove_event_detect c s))"
  by (auto simp: remove_event_detect_def registry_inv_def covered_delete_event distinct_delete
        split: option.splits if_splits)

lemma reachable_registry_inv: "reachable s \<Longrightarrow> registry_inv s"
proof (induction rule: reachable.induct)
  case (start b)
  show ?case by (simp add: registry_inv_def initial_state_def covered_Nil)
next
  case (after_setmode s m)
  then show ?case by (simp add: registry_inv_cong [OF setmode_registries])
next
  case (after_setwarnings s enabled)
  then show ?case by (simp add: registry_inv_def setwarnings_def)
next
  case (after_setup s ch direction initial pull_up_down)
  then show ?case by (simp add: setup_inv)
next
  case (after_input s channel)
  then show ?case by (simp add: input_state)
next
  case (after_output s ch state)
  then show ?case by (simp add: registry_inv_def output_registries)
next
  case (after_wait_for_edge s reads clock channel trigger timeout r s')
  from wait_for_edge_registries [OF after_wait_for_edge.hyps(2)] after_wait_for_edge.IH
  show ?case by (simp add: registry_inv_def)
next
  case (after_add_event_detect s channel trigger cb bouncetime)
  then show ?case by (simp add: add_event_detect_inv)
next
  case (after_remove_event_detect s channel)
  then show ?case by (simp add: remove_event_detect_inv)
next
  case (after_add_event_callback s channel f bouncetime)
  then show ?case by (simp add: registry_inv_def add_event_callback_registries)
next
  case (after_event_detected s channel)
  then show ?case by (simp add: event_detected_state)
next
  case (after_cleanup s ch)
  then show ?case by (simp add: cleanup_inv)
qed

lemma watched5_simps:
  "mode watched5 = Some BCM" "exports watched5 = [(5, IN)]" "events watched5 = [(5, RISING)]"
  by (simp_all add: watched5_def add_event_detect_def check_configured_def input5_simps gpio_consts)

lemma reachable_watched5: "reachable watched5"
  unfolding watched5_def input5_def active0_def
  by (rule after_add_event_detect [OF after_setup [OF after_setmode [OF start]]])

text \<open>
  Claim C7: in every state reachable through the public operations, every channel with an
  event entry has a configuration entry with direction \<open>IN\<close>, and no channel has two
  event entries (the keys of the event table are pairwise distinct).
\<close>

theorem reachable_event_entries:
  assumes "reachable s"
  shows "(\<forall>c. c \<in> set (map fst (events s)) \<longrightarrow> map_of (exports s) c = Some IN) \<and>
         distinct (map fst (events s))"
  using reachable_registry_inv [OF assms] by (simp add: registry_inv_def covered_def)

theorem reachable_event_entries_witness:
  "reachable watched5 \<and> 5 \<in> set (map fst (events watched5)) \<and>
   map_of (exports watched5) 5 = Some IN \<and> distinct (map fst (events watched5))"
  using reachable_event_entries [OF reachable_watched5] reachable_watched5
  by (simp add: watched5_simps)

subsection \<open>One edge watch per channel\<close>

text \<open>
  Claim C6: in a reachable state, for every channel \<open>c\<close> that has an event entry and
  every trigger \<open>t\<close> that the two operations accept (\<open>RISING\<close>, \<open>FALLING\<close>,
  \<open>BOTH\<close>), both \<^verbatim>\<open>wait_for_edge(c, t)\<close> and \<^verbatim>\<open>add_event_detect(c, t)\<close>
  fail with \<open>EventConflict\<close> and leave the state unchanged, for every timeout, callback
  and bounce time. In particular \<^verbatim>\<open>add_event_detect(5, RISING)\<close> followed by
  \<^verbatim>\<open>wait_for_edge(5, FALLING)\<close> fails with \<open>EventConflict\<close>.
\<close>

theorem event_conflict_on_watched_channel:
  assumes "reachable s" and "c \<in> set (map fst (events s))"
      and "t = RISING \<or> t = FALLING \<or> t = BOTH"
  shows "wait_for_edge reads clock c t timeout s = Some (Inl EventConflict, s) \<and>
         add_event_detect c t cb bouncetime s = (Inl EventConflict, s)"
proof -
  from reachable_registry_inv [OF assms(1)] assms(2)
  have "map_of (exports s) c = Some IN"
    by (simp add: registry_inv_def covered_def)
  with assms(2,3) show ?thesis
    by (auto simp: wait_for_edge_def add_event_detect_def check_configured_def)
qed

theorem event_conflict_on_watched_channel_witness:
  "reachable watched5 \<and> 5 \<in> set (map fst (events watched5)) \<and>
   fst (add_event_detect 5 RISING None None input5) = Inr () \<and>
   wait_for_edge level_rises clock_half 5 FALLING (- 1) watched5
     = Some (Inl EventConflict, watched5) \<and>
   add_event_detect 5 FALLING (Some 1) None watched5 = (Inl EventConflict, watched5)"
proof -
  have key: "5 \<in> set (map fst (events watched5))" by (simp add: watched5_simps)
  have added: "fst (add_event_detect 5 RISING None None input5) = Inr ()"
    by (simp add: add_event_detect_def check_configured_def input5_simps gpio_consts)
  have trig: "FALLING = RISING \<or> FALLING = FALLING \<or> FALLING = BOTH" by simp
  from event_conflict_on_watched_channel
         [OF reachable_watched5 key trig, of level_rises clock_half "- 1" "Some 1" None]
       reachable_watched5 key added
  show ?thesis by blast
qed

text \<open>
  A trigger other than these three never reaches the conflict check: on a channel
  configured as \<open>IN\<close> the assertion on the trigger fails first.
\<close>

lemma invalid_trigger_rejected_first:
  assumes "map_of (exports s) c = Some IN"
      and "t \<noteq> RISING" and "t \<noteq> FALLING" and "t \<noteq> BOTH"
  shows "wait_for_edge reads clock c t timeout s = Some (Inl InvalidArgument, s) \<and>
         add_event_detect c t cb bouncetime s = (Inl InvalidArgument, s)"
  using assms by (simp add: wait_for_edge_def add_event_detect_def check_configured_def)

subsection \<open>The polling loop\<close>

text \<open>
  The loop stops at once when an exit flag is set and makes one more pass otherwise; when it
  returns, an exit flag is set; and it does return as soon as some number of passes sets
  an exit flag.
\<close>

lemma wait_loop_exit:
  "valueExit v \<or> timeoutExit v \<Longrightarrow> wait_loop reads clock trigger timeout startTime v = Some v"
  by (subst wait_loop.simps) auto

lemma wait_loop_continue:
  "\<not> valueExit v \<Longrightarrow> \<not> timeoutExit v \<Longrightarrow>
     wait_loop reads clock trigger timeout startTime v
       = wait_loop reads clock trigger timeout startTime
           (wait_body reads clock trigger timeout startTime v)"
  by (subst wait_loop.simps) simp

lemma wait_loop_exited:
  assumes "wait_loop reads clock trigger timeout startTime v = Some vf"
  shows "valueExit vf \<or> timeoutExit vf"
  by (rule wait_loop.raw_induct
            [where P = "\<lambda>reads clock trigger timeout startTime v vf. valueExit vf \<or> timeoutExit vf",
             OF _ assms])
     (auto split: if_splits)

lemma wait_loop_terminates:
  assumes "valueExit ((wait_body reads clock trigger timeout startTime ^^ n) v) \<or>
           timeoutExit ((wait_body reads clock trigger timeout startTime ^^ n) v)"
  shows "\<exists>vf. wait_loop reads clock trigger timeout startTime v = Some vf"
  using assms
proof (induction n arbitrary: v)
  case 0
  then show ?case by (simp add: wait_loop_exit)
next
  case (Suc n)
  show ?case
  proof (cases "valueExit v \<or> timeoutExit v")
    case True
    then show ?thesis by (simp add: wait_loop_exit)
  next
    case False
    from Suc.prems
    have "\<exists>vf. wait_loop reads clock trigger timeout startTime
                  (wait_body reads clock trigger timeout startTime v) = Some vf"
      by (intro Suc.IH) (simp add: funpow_swap1)
    moreover from False
    have "wait_loop reads clock trigger timeout startTime v
            = wait_loop reads clock trigger timeout startTime
                (wait_body reads clock trigger timeout startTime v)"
      by (intro wait_loop_continue) simp_all
    ultimately show ?thesis by simp
  qed
qed

lemma run_rises:
  "wait_loop level_rises clock_half RISING (- 1) (clock_half 0) (wait_start level_rises)
     = Some \<lparr>originalValue = True, sampled = True, valueExit = True,
             timeoutExit = False, polls = 2\<rparr>"
  by (simp add: wait_loop_continue wait_loop_exit wait_body_def wait_start_def level_rises_def
        Let_def gpio_consts)

lemma run_times_out:
  "wait_loop level_low clock_half RISING 1 (clock_half 0) (wait_start level_low)
     = Some \<lparr>originalValue = False, sampled = False, valueExit = False,
             timeoutExit = True, polls = 3\<rparr>"
  by (simp add: wait_loop_continue wait_loop_exit wait_body_def wait_start_def level_low_def
        clock_half_def Let_def gpio_consts)
lemma run_dips:
  "wait_loop level_dips clock_half RISING (- 1) (clock_half 0) (wait_start level_dips)
     = Some \<lparr>originalValue = True, sampled = True, valueExit = True,
             timeoutExit = False, polls = 2\<rparr>"
  by (simp add: wait_loop_continue wait_loop_exit wait_body_def wait_start_def level_dips_def
        Let_def gpio_consts)

lemma wait_body_on_target:
  assumes "trigger = RISING \<or> trigger = FALLING" and "\<not> valueExit v"
  shows "on_target trigger (wait_body reads clock trigger timeout startTime v)"
  using assms by (auto simp: on_target_def wait_body_def Let_def gpio_consts)

lemma wait_loop_on_target:
  assumes "wait_loop reads clock trigger timeout startTime v = Some vf"
  shows "trigger = RISING \<or> trigger = FALLING \<longrightarrow> on_target trigger v \<longrightarrow> on_target trigger vf"
proof (rule wait_loop.raw_induct
         [where P = "\<lambda>reads clock trigger timeout startTime v vf.
                       trigger = RISING \<or> trigger = FALLING \<longrightarrow>
                       on_target trigger v \<longrightarrow> on_target trigger vf",
          OF _ assms])
  fix loop reads clock trigger timeout startTime v vf
  assume IH: "\<And>reads clock trigger timeout startTime v vf.
                loop reads clock trigger timeout startTime v = Some vf \<Longrightarrow>
                trigger = RISING \<or> trigger = FALLING \<longrightarrow>
                on_target trigger v \<longrightarrow> on_target trigger vf"
    and eq: "(if \<not> valueExit v \<and> \<not> timeoutExit v
              then loop reads clock trigger timeout startTime
                     (wait_body reads clock trigger timeout startTime v)
              else Some v) = Some vf"
  show "trigger = RISING \<or> trigger = FALLING \<longrightarrow> on_target trigger v \<longrightarrow> on_target trigger vf"
  proof (intro impI)
    assume trig: "trigger = RISING \<or> trigger = FALLING" and tgt: "on_target trigger v"
    show "on_target trigger vf"
    proof (cases "\<not> valueExit v \<and> \<not> timeoutExit v")
      case True
      with eq have run: "loop reads clock trigger timeout startTime
                           (wait_body reads clock trigger timeout startTime v) = Some vf"
        by simp
      from True trig have "on_target trigger (wait_body reads clock trigger timeout startTime v)"
        by (simp add: wait_body_on_target)
      with IH [OF run] trig show ?thesis by blast
    next
      case False
      with eq have "vf = v" by (simp split: if_splits)
      with tgt show ?thesis by simp
    qed
  qed
qed

lemma wait_body_value_exit:
  assumes "trigger = RISING \<or> trigger = FALLING" and "\<not> valueExit v"
  shows "valueExit (wait_body reads clock trigger timeout startTime v) \<longleftrightarrow>
           reads (Suc (polls v)) \<noteq> originalValue v \<and>
           (reads (Suc (polls v)) \<longleftrightarrow> trigger = RISING)"
  using assms by (auto simp: wait_body_def Let_def gpio_consts)

lemma wait_body_baseline:
  assumes "trigger = RISING \<or> trigger = FALLING"
  shows "originalValue (wait_body reads clock trigger timeout startTime v) = reads (Suc (polls v))"
  using assms by (auto simp: wait_body_def Let_def gpio_consts)

lemma wait_body_by_transition:
  assumes "trigger = RISING \<or> trigger = FALLING"
      and "\<not> valueExit v" and "\<not> timeoutExit v"
  shows "by_transition reads clock trigger timeout startTime
           (wait_body reads clock trigger timeout startTime v)"
  unfolding by_transition_def
proof
  assume "valueExit (wait_body reads clock trigger timeout startTime v)"
  with wait_body_value_exit [OF assms(1,2), of reads clock timeout startTime]
  have "reads (Suc (polls v)) \<noteq> originalValue v \<and> (reads (Suc (polls v)) \<longleftrightarrow> trigger = RISING)"
    by blast
  with assms(2,3)
  show "\<exists>u. \<not> valueExit u \<and> \<not> timeoutExit u \<and>
             wait_body reads clock trigger timeout startTime v
               = wait_body reads clock trigger timeout startTime u \<and>
             reads (Suc (polls u)) \<noteq> originalValue u \<and>
             (reads (Suc (polls u)) \<longleftrightarrow> trigger = RISING)"
    by (intro exI [of _ v]) blast
qed

lemma wait_loop_by_transition:
  assumes "wait_loop reads clock trigger timeout startTime v = Some vf"
  shows "trigger = RISING \<or> trigger = FALLING \<longrightarrow>
         by_transition reads clock trigger timeout startTime v \<longrightarrow>
         by_transition reads clock trigger timeout startTime vf"
proof (rule wait_loop.raw_induct
         [where P = "\<lambda>reads clock trigger timeout startTime v vf.
                       trigger = RISING \<or> trigger = FALLING \<longrightarrow>
                       by_transition reads clock trigger timeout startTime v \<longrightarrow>
                       by_transition reads clock trigger timeout startTime vf",
          OF _ assms])
  fix loop reads clock trigger timeout startTime v vf
  assume IH: "\<And>reads clock trigger timeout startTime v vf.
                loop reads clock trigger timeout startTime v = Some vf \<Longrightarrow>
                trigger = RISING \<or> trigger = FALLING \<longrightarrow>
                by_transition reads clock trigger timeout startTime v \<longrightarrow>
                by_transition reads clock trigger timeout startTime vf"
    and eq: "(if \<not> valueExit v \<and> \<not> timeoutExit v
              then loop reads clock trigger timeout startTime
                     (wait_body reads clock trigger timeout startTime v)
              else Some v) = Some vf"
  show "trigger = RISING \<or> trigger = FALLING \<longrightarrow>
        by_transition reads clock trigger timeout startTime v \<longrightarrow>
        by_transition reads clock trigger timeout startTime vf"
  proof (intro impI)
    assume trig: "trigger = RISING \<or> trigger = FALLING"
      and tr: "by_transition reads clock trigger timeout startTime v"
    show "by_transition reads clock trigger timeout startTime vf"
    proof (cases "\<not> valueExit v \<and> \<not> timeoutExit v")
      case True
      with eq have run: "loop reads clock trigger timeout startTime
                           (wait_body reads clock trigger timeout startTime v) = Some vf"
        by simp
      from True trig
      have "by_transition reads clock trigger timeout startTime
              (wait_body reads clock trigger timeout startTime v)"
        by (simp add: wait_body_by_transition)
      with IH [OF run] trig show ?thesis by blast
    next
      case False
      with eq have "vf = v" by (simp split: if_splits)
      with tr show ?thesis by simp
    qed
  qed
qed

text \<open>
  Claim C4: in the polling loop with trigger \<open>RISING\<close> or \<open>FALLING\<close>, a pass made
  while the loop is running sets the value exit flag exactly when its sample differs from
  the baseline and is the level the trigger waits for (high for \<open>RISING\<close>, low for
  \<open>FALLING\<close>); the wait then ends with the variables of this pass. A sample equal to the
  baseline never ends the wait by value, whatever its level. After every pass the baseline
  is the level just sampled, so a change to the other level advances the baseline; unless
  the timeout has elapsed, the loop then makes a further pass from the new baseline, and
  without a timeout the timeout flag is never set. Whenever the wait ends by value, its
  last sample is the level the trigger waits for, and it was produced by a pass whose
  sample differed from the baseline of that moment: only a transition that lands on the
  requested level satisfies the wait.
\<close>

theorem wait_change_exits_iff_target:
  assumes "trigger = RISING \<or> trigger = FALLING"
      and "\<not> valueExit v" and "\<not> timeoutExit v"
  shows "(valueExit (wait_body reads clock trigger timeout startTime v) \<longleftrightarrow>
            reads (Suc (polls v)) \<noteq> originalValue v \<and>
            (reads (Suc (polls v)) \<longleftrightarrow> trigger = RISING)) \<and>
         originalValue (wait_body reads clock trigger timeout startTime v) = reads (Suc (polls v)) \<and>
         (valueExit (wait_body reads clock trigger timeout startTime v) \<longrightarrow>
            wait_loop reads clock trigger timeout startTime v
              = Some (wait_body reads clock trigger timeout startTime v)) \<and>
         (\<not> valueExit (wait_body reads clock trigger timeout startTime v) \<and>
          \<not> timeoutExit (wait_body reads clock trigger timeout startTime v) \<longrightarrow>
            wait_loop reads clock trigger timeout startTime v
              = wait_loop reads clock trigger timeout startTime
                  (wait_body reads clock trigger timeout startTime
                     (wait_body reads clock trigger timeout startTime v))) \<and>
         (timeout \<le> 0 \<longrightarrow> \<not> timeoutExit (wait_body reads clock trigger timeout startTime v)) \<and>
         (\<forall>vf. wait_loop reads clock trigger timeout startTime v = Some vf \<and> valueExit vf \<longrightarrow>
                (sampled vf \<longleftrightarrow> trigger = RISING) \<and>
                (\<exists>u. \<not> valueExit u \<and> \<not> timeoutExit u \<and>
                     vf = wait_body reads clock trigger timeout startTime u \<and>
                     reads (Suc (polls u)) \<noteq> originalValue u \<and>
                     (reads (Suc (polls u)) \<longleftrightarrow> trigger = RISING)))"
proof -
  let ?v' = "wait_body reads clock trigger timeout startTime v"
  have ex: "valueExit ?v' \<longleftrightarrow>
              reads (Suc (polls v)) \<noteq> originalValue v \<and>
              (reads (Suc (polls v)) \<longleftrightarrow> trigger = RISING)"
    using assms(1,2) by (rule wait_body_value_exit)
  have base: "originalValue ?v' = reads (Suc (polls v))"
    using assms(1) by (rule wait_body_baseline)
  have step: "wait_loop reads clock trigger timeout startTime v
                = wait_loop reads clock trigger timeout startTime ?v'"
    using assms(2,3) by (rule wait_loop_continue)
  have stop: "valueExit ?v' \<longrightarrow> wait_loop reads clock trigger timeout startTime v = Some ?v'"
  proof
    assume "valueExit ?v'"
    then have "wait_loop reads clock trigger timeout startTime ?v' = Some ?v'"
      by (intro wait_loop_exit) simp
    with step show "wait_loop reads clock trigger timeout startTime v = Some ?v'" by simp
  qed
  have go: "\<not> valueExit ?v' \<and> \<not> timeoutExit ?v' \<longrightarrow>
              wait_loop reads clock trigger timeout startTime v
                = wait_loop reads clock trigger timeout startTime
                    (wait_body reads clock trigger timeout startTime ?v')"
  proof
    assume "\<not> valueExit ?v' \<and> \<not> timeoutExit ?v'"
    then have "wait_loop reads clock trigger timeout startTime ?v'
                 = wait_loop reads clock trigger timeout startTime
                     (wait_body reads clock trigger timeout startTime ?v')"
      by (intro wait_loop_continue) simp_all
    with step show "wait_loop reads clock trigger timeout startTime v
                      = wait_loop reads clock trigger timeout startTime
                          (wait_body reads clock trigger timeout startTime ?v')"
      by simp
  qed
  have forever: "timeout \<le> 0 \<longrightarrow> \<not> timeoutExit ?v'"
    using assms(3) by (auto simp: wait_body_def Let_def)
  have final: "\<forall>vf. wait_loop reads clock trigger timeout startTime v = Some vf \<and> valueExit vf \<longrightarrow>
                (sampled vf \<longleftrightarrow> trigger = RISING) \<and>
                (\<exists>u. \<not> valueExit u \<and> \<not> timeoutExit u \<and>
                     vf = wait_body reads clock trigger timeout startTime u \<and>
                     reads (Suc (polls u)) \<noteq> originalValue u \<and>
                     (reads (Suc (polls u)) \<longleftrightarrow> trigger = RISING))"
  proof (intro allI impI)
    fix vf
    assume r: "wait_loop reads clock trigger timeout startTime v = Some vf \<and> valueExit vf"
    from assms(2) have "on_target trigger v" by (simp add: on_target_def)
    with r assms(1) wait_loop_on_target [of reads clock trigger timeout startTime v vf]
    have "on_target trigger vf" by blast
    with r have level: "sampled vf \<longleftrightarrow> trigger = RISING" by (simp add: on_target_def)
    from assms(2) have "by_transition reads clock trigger timeout startTime v"
      by (simp add: by_transition_def)
    with r assms(1) wait_loop_by_transition [of reads clock trigger timeout startTime v vf]
    have "by_transition reads clock trigger timeout startTime vf" by blast
    with r have "\<exists>u. \<not> valueExit u \<and> \<not> timeoutExit u \<and>
                     vf = wait_body reads clock trigger timeout startTime u \<and>
                     reads (Suc (polls u)) \<noteq> originalValue u \<and>
                     (reads (Suc (polls u)) \<longleftrightarrow> trigger = RISING)"
      by (simp add: by_transition_def)
    with level
    show "(sampled vf \<longleftrightarrow> trigger = RISING) \<and>
          (\<exists>u. \<not> valueExit u \<and> \<not> timeoutExit u \<and>
               vf = wait_body reads clock trigger timeout startTime u \<and>
               reads (Suc (polls u)) \<noteq> originalValue u \<and>
               (reads (Suc (polls u)) \<longleftrightarrow> trigger = RISING))"
      by (rule conjI)
  qed
  from ex base stop go forever final show ?thesis by blast
qed

theorem wait_change_exits_iff_target_witness:
  "(RISING = RISING \<or> RISING = FALLING) \<and>
   \<not> valueExit (wait_start level_dips) \<and> \<not> timeoutExit (wait_start level_dips) \<and>
   level_dips (Suc (polls (wait_start level_dips))) \<noteq> originalValue (wait_start level_dips) \<and>
   \<not> level_dips (Suc (polls (wait_start level_dips))) \<and>
   \<not> valueExit (wait_body level_dips clock_half RISING (- 1) (clock_half 0)
                  (wait_start level_dips)) \<and>
   originalValue (wait_body level_dips clock_half RISING (- 1) (clock_half 0)
                    (wait_start level_dips)) = False \<and>
   wait_loop level_dips clock_half RISING (- 1) (clock_half 0) (wait_start level_dips)
     = Some \<lparr>originalValue = True, sampled = True, valueExit = True,
             timeoutExit = False, polls = 2\<rparr> \<and>
   \<not> valueExit (wait_start level_high) \<and> \<not> timeoutExit (wait_start level_high) \<and>
   level_high (Suc (polls (wait_start level_high))) = originalValue (wait_start level_high) \<and>
   level_high (Suc (polls (wait_start level_high))) \<and>
   \<not> valueExit (wait_body level_high clock_half RISING (- 1) (clock_half 0)
                  (wait_start level_high))"
proof -
  have trig: "RISING = RISING \<or> RISING = FALLING" by simp
  have run: "\<not> valueExit (wait_start level_dips)" "\<not> timeoutExit (wait_start level_dips)"
    by (simp_all add: wait_start_def)
  have low: "\<not> level_dips (Suc (polls (wait_start level_dips)))"
    by (simp add: wait_start_def level_dips_def)
  have change: "level_dips (Suc (polls (wait_start level_dips)))
                  \<noteq> originalValue (wait_start level_dips)"
    by (simp add: wait_start_def level_dips_def)
  note w = wait_change_exits_iff_target
             [where trigger = RISING and v = "wait_start level_dips" and reads = level_dips
                and clock = clock_half and timeout = "- 1" and startTime = "clock_half 0",
              OF trig run]
  let ?b = "wait_body level_dips clock_half RISING (- 1) (clock_half 0) (wait_start level_dips)"
  from w have a: "valueExit ?b \<longleftrightarrow>
                    level_dips (Suc (polls (wait_start level_dips)))
                      \<noteq> originalValue (wait_start level_dips) \<and>
                    (level_dips (Suc (polls (wait_start level_dips))) \<longleftrightarrow> RISING = RISING)"
    and b: "originalValue ?b = level_dips (Suc (polls (wait_start level_dips)))"
    by blast+
  from a low have a': "\<not> valueExit ?b" by simp
  from b low have b': "originalValue ?b = False" by simp
  have run_h: "\<not> valueExit (wait_start level_high)" "\<not> timeoutExit (wait_start level_high)"
    by (simp_all add: wait_start_def)
  have same: "level_high (Suc (polls (wait_start level_high)))
                = originalValue (wait_start level_high)"
    and high: "level_high (Suc (polls (wait_start level_high)))"
    by (simp_all add: wait_start_def level_high_def)
  note h = wait_change_exits_iff_target
             [where trigger = RISING and v = "wait_start level_high" and reads = level_high
                and clock = clock_half and timeout = "- 1" and startTime = "clock_half 0",
              OF trig run_h]
  let ?c = "wait_body level_high clock_half RISING (- 1) (clock_half 0) (wait_start level_high)"
  from h have c: "valueExit ?c \<longleftrightarrow>
                    level_high (Suc (polls (wait_start level_high)))
                      \<noteq> originalValue (wait_start level_high) \<and>
                    (level_high (Suc (polls (wait_start level_high))) \<longleftrightarrow> RISING = RISING)"
    by blast
  from c same have c': "\<not> valueExit ?c" by simp
  from trig run change low a' b' run_dips run_h same high c' show ?thesis by blast
qed

subsection \<open>wait_for_edge\<close>

text \<open>The two waits on channel 5 of \<open>input5\<close>, and a wait on a channel never set up.\<close>

lemma wait_rises_input5:
  "wait_for_edge level_rises clock_half 5 RISING (- 1) input5
     = Some (Inr 5, input5\<lparr>board := AIOWriteGPIOEdge 5 NONE
                                      (AIOWriteGPIOEdge 5 RISING (board input5))\<rparr>)"
  by (simp add: wait_for_edge_def check_configured_def input5_simps run_rises Let_def)

lemma wait_times_out_input5:
  "wait_for_edge level_low clock_half 5 RISING 1 input5
     = Some (Inr 5, input5\<lparr>board := AIOWriteGPIOEdge 5 NONE
                                      (AIOWriteGPIOEdge 5 RISING (board input5))\<rparr>)"
  by (simp add: wait_for_edge_def check_configured_def input5_simps run_times_out Let_def)

lemma wait_unconfigured:
  "wait_for_edge level_low clock_half 4 RISING 1 input5
     = Some (Inl (ChannelNotConfigured 4), input5)"
  by (simp add: wait_for_edge_def check_configured_def input5_simps)

text \<open>
  Claim C5: every call of \<^verbatim>\<open>wait_for_edge\<close> that returns does so because the loop
  ended with the value exit flag or the timeout exit flag set; in both cases the value
  returned is the channel, and the edge flag of the channel on the board is \<open>NONE\<close>
  in the state the call leaves.
\<close>

theorem wait_for_edge_disarms_and_returns_channel:
  assumes "wait_for_edge reads clock c t timeout s = Some (Inr r, s')"
  shows "r = c \<and> edges (board s') c = NONE \<and>
         (\<exists>v. wait_loop reads clock t timeout (clock 0) (wait_start reads) = Some v \<and>
              (valueExit v \<or> timeoutExit v))"
  using assms
  by (auto simp: wait_for_edge_def Let_def AIOWriteGPIOEdge_def
           split: option.splits if_splits dest: wait_loop_exited)

theorem wait_for_edge_disarms_and_returns_channel_witness:
  "wait_for_edge level_rises clock_half 5 RISING (- 1) input5
     = Some (Inr 5, input5\<lparr>board := AIOWriteGPIOEdge 5 NONE
                                      (AIOWriteGPIOEdge 5 RISING (board input5))\<rparr>) \<and>
   wait_for_edge level_low clock_half 5 RISING 1 input5
     = Some (Inr 5, input5\<lparr>board := AIOWriteGPIOEdge 5 NONE
                                      (AIOWriteGPIOEdge 5 RISING (board input5))\<rparr>) \<and>
   edges (board (input5\<lparr>board := AIOWriteGPIOEdge 5 NONE
                                   (AIOWriteGPIOEdge 5 RISING (board input5))\<rparr>)) 5 = NONE \<and>
   wait_loop level_rises clock_half RISING (- 1) (clock_half 0) (wait_start level_rises)
     = Some \<lparr>originalValue = True, sampled = True, valueExit = True,
             timeoutExit = False, polls = 2\<rparr> \<and>
   wait_loop level_low clock_half RISING 1 (clock_half 0) (wait_start level_low)
     = Some \<lparr>originalValue = False, sampled = False, valueExit = False,
             timeoutExit = True, polls = 3\<rparr>"
  using wait_for_edge_disarms_and_returns_channel [OF wait_rises_input5]
    wait_for_edge_disarms_and_returns_channel [OF wait_times_out_input5]
    wait_rises_input5 wait_times_out_input5
  by (simp add: run_rises run_times_out)

text \<open>
  Claim C10: every call of \<^verbatim>\<open>wait_for_edge\<close> that ends, by raising or by
  returning, leaves the channel table and the event table as they were. A call that raises
  changes nothing at all; a call that returns changes only the edge flag of its channel on
  the board.
\<close>

theorem wait_for_edge_leaves_registries:
  assumes "wait_for_edge reads clock c t timeout s = Some (r, s')"
  shows "exports s' = exports s \<and> events s' = events s \<and>
         (case r of
            Inl e \<Rightarrow> s' = s
          | Inr v \<Rightarrow> s' = s\<lparr>board := (board s)\<lparr>edges := (edges (board s))(c := NONE)\<rparr>\<rparr>)"
  using assms
  by (auto simp: wait_for_edge_def Let_def AIOWriteGPIOEdge_def
           split: option.splits if_splits)

theorem wait_for_edge_leaves_registries_witness:
  "wait_for_edge level_rises clock_half 5 RISING (- 1) input5
     = Some (Inr 5, input5\<lparr>board := AIOWriteGPIOEdge 5 NONE
                                      (AIOWriteGPIOEdge 5 RISING (board input5))\<rparr>) \<and>
   exports (input5\<lparr>board := AIOWriteGPIOEdge 5 NONE
                              (AIOWriteGPIOEdge 5 RISING (board input5))\<rparr>) = [(5, IN)] \<and>
   events (input5\<lparr>board := AIOWriteGPIOEdge 5 NONE
                             (AIOWriteGPIOEdge 5 RISING (board input5))\<rparr>) = [] \<and>
   wait_for_edge level_low clock_half 4 RISING 1 input5
     = Some (Inl (ChannelNotConfigured 4), input5)"
  using wait_for_edge_leaves_registries [OF wait_rises_input5]
    wait_for_edge_leaves_registries [OF wait_unconfigured]
    wait_rises_input5 wait_unconfigured
  by (simp add: input5_simps)

end
